theory Spec2Isabelle
  imports Main "HOL-Library.Multiset" "HOL-Library.AList"
begin

section \<open>Data model\<close>

text \<open>
  The validation package of the HTTPRoute API (\<^verbatim>\<open>apis/v1beta1/validation/httproute.go\<close>)
  works on the API's Go structs. A Go \<^verbatim>\<open>string\<close> is a sequence of bytes and is modelled as a
  \<^typ>\<open>string\<close>; a slice is a list (\<^verbatim>\<open>nil\<close> and the empty slice are both \<open>[]\<close>: the code only
  takes \<^verbatim>\<open>len\<close> of and ranges over its slices); a pointer that may be \<^verbatim>\<open>nil\<close> is an
  \<^typ>\<open>'a option\<close>. Only the fields that the validation reads, and the query-parameter matches
  that its tests supply, are kept.
\<close>

text \<open>\<^verbatim>\<open>field.Path\<close>: \<^verbatim>\<open>NewPath\<close>, \<^verbatim>\<open>Child\<close> and \<^verbatim>\<open>Index\<close> build a path from its parent;
  \<open>NilPath\<close> is the \<^verbatim>\<open>nil\<close> parent of a root.\<close>

datatype Path = NilPath | Child Path string | Index Path nat

definition NewPath :: "string \<Rightarrow> Path" where
  "NewPath name = Child NilPath name"

text \<open>Modelled from the spec: the type declarations of package \<^verbatim>\<open>apis/v1beta1\<close> are not among
  the sources. The filter kinds are the ones the spec lists, with every other kind opaque.\<close>

datatype HTTPRouteFilterType =
    HTTPRouteFilterRequestHeaderModifier
  | HTTPRouteFilterResponseHeaderModifier
  | HTTPRouteFilterRequestMirror
  | HTTPRouteFilterRequestRedirect
  | HTTPRouteFilterURLRewrite
  | HTTPRouteFilterOther string

record HTTPHeader =
  HTTPHeader_Name :: string
  HTTPHeader_Value :: string

record HTTPHeaderFilter =
  HTTPHeaderFilter_Set :: "HTTPHeader list"
  HTTPHeaderFilter_Add :: "HTTPHeader list"
  HTTPHeaderFilter_Remove :: "string list"

record HTTPRouteFilter =
  HTTPRouteFilter_Type :: HTTPRouteFilterType
  HTTPRouteFilter_RequestHeaderModifier :: "HTTPHeaderFilter option"
  HTTPRouteFilter_ResponseHeaderModifier :: "HTTPHeaderFilter option"

record HTTPHeaderMatch =
  HTTPHeaderMatch_Name :: string
  HTTPHeaderMatch_Value :: string

record HTTPQueryParamMatch =
  HTTPQueryParamMatch_Name :: string
  HTTPQueryParamMatch_Value :: string

record HTTPRouteMatch =
  HTTPRouteMatch_Headers :: "HTTPHeaderMatch list"
  HTTPRouteMatch_QueryParams :: "HTTPQueryParamMatch list"

record HTTPBackendRef =
  HTTPBackendRef_Filters :: "HTTPRouteFilter list"

record HTTPRouteRule =
  HTTPRouteRule_Matches :: "HTTPRouteMatch list"
  HTTPRouteRule_Filters :: "HTTPRouteFilter list"
  HTTPRouteRule_BackendRefs :: "HTTPBackendRef list"

text \<open>The parent references are only handed to \<^verbatim>\<open>ValidateParentRefs\<close>; their type is a
  parameter \<open>'r\<close>.\<close>

record 'r HTTPRouteSpec =
  HTTPRouteSpec_ParentRefs :: "'r list"
  HTTPRouteSpec_Rules :: "HTTPRouteRule list"

record 'r HTTPRoute =
  HTTPRoute_Spec :: "'r HTTPRouteSpec"

text \<open>\<^verbatim>\<open>field.Error\<close>. The bad value is an \<^verbatim>\<open>interface{}\<close>; this package stores a filter type, a
  string or a header in it. \<^verbatim>\<open>field.Error\<close> keeps the path rendered as a string; the model keeps
  the path itself.\<close>

datatype BadValue =
    FilterTypeValue HTTPRouteFilterType
  | StringValue string
  | HeaderValue HTTPHeader
  | OpaqueValue string

datatype ErrorType = ErrorTypeInvalid | ErrorTypeOther string

datatype FieldError =
  FieldError (ErrType: ErrorType) (Field: Path) (BadValue: BadValue) (Detail: string)

definition Invalid :: "Path \<Rightarrow> BadValue \<Rightarrow> string \<Rightarrow> FieldError" where
  "Invalid p v detail = FieldError ErrorTypeInvalid p v detail"

text \<open>The two functions of the Go standard library that the package calls,
  \<^verbatim>\<open>strings.ToLower\<close> and \<^verbatim>\<open>http.CanonicalHeaderKey\<close>, are parameters of the model.\<close>

record GoLib =
  ToLower :: "string \<Rightarrow> string"
  CanonicalHeaderKey :: "string \<Rightarrow> string"

section \<open>validateHTTPHeaderModifier\<close>

text \<open>
  The three loops over \<^verbatim>\<open>filter.Add\<close>, \<^verbatim>\<open>filter.Set\<close> and \<^verbatim>\<open>filter.Remove\<close> have the same body;
  they differ in the child path and in the value that the error carries (\<^verbatim>\<open>filter.Add[i]\<close>,
  \<^verbatim>\<open>filter.Set[i]\<close>: the header; \<^verbatim>\<open>filter.Remove[i]\<close>: the name). The state of the loops is the
  pair of \<^verbatim>\<open>errs\<close> and the map \<^verbatim>\<open>singleAction\<close>.
\<close>

definition singleAction_step ::
  "GoLib \<Rightarrow> Path \<Rightarrow> string \<Rightarrow> BadValue \<Rightarrow>
   FieldError list \<times> (string \<rightharpoonup> bool) \<Rightarrow> FieldError list \<times> (string \<rightharpoonup> bool)" where
  "singleAction_step lib p name v st =
     (case st of (errs, singleAction) \<Rightarrow>
        (case singleAction (ToLower lib name) of
           Some needsErr \<Rightarrow>
             ((if needsErr
               then errs @ [Invalid p v ''cannot specify multiple actions for header'']
               else errs),
              singleAction(ToLower lib name \<mapsto> False))
         | None \<Rightarrow> (errs, singleAction(ToLower lib name \<mapsto> True))))"

definition validateHTTPHeaderModifier ::
  "GoLib \<Rightarrow> HTTPHeaderFilter \<Rightarrow> Path \<Rightarrow> FieldError list" where
  "validateHTTPHeaderModifier lib flt path =
     (let st0 = ([], Map.empty);
          st1 = fold (\<lambda>action. singleAction_step lib (Child path ''add'')
                        (HTTPHeader_Name action) (HeaderValue action))
                  (HTTPHeaderFilter_Add flt) st0;
          st2 = fold (\<lambda>action. singleAction_step lib (Child path ''set'')
                        (HTTPHeader_Name action) (HeaderValue action))
                  (HTTPHeaderFilter_Set flt) st1;
          st3 = fold (\<lambda>name. singleAction_step lib (Child path ''remove'')
                        name (StringValue name))
                  (HTTPHeaderFilter_Remove flt) st2
      in fst st3)"

section \<open>validateHTTPRouteFilters\<close>

text \<open>
  The loop carries \<^verbatim>\<open>errs\<close> and the map \<^verbatim>\<open>counts\<close>; reading a key that a Go map does not hold
  gives 0, so \<^verbatim>\<open>counts[t]++\<close> stores 1 for a new key. A count is at most the length of the
  slice and cannot overflow. The parameter \<^verbatim>\<open>matches\<close> is part of the signature.
\<close>

definition count_of :: "('k \<rightharpoonup> nat) \<Rightarrow> 'k \<Rightarrow> nat" where
  "count_of counts k = (case counts k of None \<Rightarrow> 0 | Some c \<Rightarrow> c)"

fun filters_loop ::
  "GoLib \<Rightarrow> Path \<Rightarrow> nat \<Rightarrow> HTTPRouteFilter list \<Rightarrow>
   FieldError list \<times> (HTTPRouteFilterType \<rightharpoonup> nat) \<Rightarrow>
   FieldError list \<times> (HTTPRouteFilterType \<rightharpoonup> nat)" where
  "filters_loop lib path i [] st = st"
| "filters_loop lib path i (f # fs) (errs, counts) =
     (let counts1 = counts(HTTPRouteFilter_Type f \<mapsto> Suc (count_of counts (HTTPRouteFilter_Type f)));
          errs1 = (case HTTPRouteFilter_RequestHeaderModifier f of
                     Some hm \<Rightarrow> errs @ validateHTTPHeaderModifier lib hm
                                         (Child (Index path i) ''requestHeaderModifier'')
                   | None \<Rightarrow> errs);
          errs2 = (case HTTPRouteFilter_ResponseHeaderModifier f of
                     Some hm \<Rightarrow> errs1 @ validateHTTPHeaderModifier lib hm
                                          (Child (Index path i) ''responseHeaderModifier'')
                   | None \<Rightarrow> errs1)
      in filters_loop lib path (Suc i) fs (errs2, counts1))"

definition validateHTTPRouteFilters ::
  "GoLib \<Rightarrow> HTTPRouteFilter list \<Rightarrow> HTTPRouteMatch list \<Rightarrow> Path \<Rightarrow> FieldError list" where
  "validateHTTPRouteFilters lib filters matches path =
     (case filters_loop lib path 0 filters ([], Map.empty) of (errs, counts) \<Rightarrow>
        if count_of counts HTTPRouteFilterRequestRedirect > 0
           \<and> count_of counts HTTPRouteFilterURLRewrite > 0
        then errs @ [Invalid (Child path ''filters'')
                       (FilterTypeValue HTTPRouteFilterRequestRedirect)
                       ''may specify either httpRouteFilterRequestRedirect or httpRouteFilterRequestRewrite, but not both'']
        else errs)"

section \<open>validateHTTPHeaderMatches\<close>

text \<open>
  The map \<^verbatim>\<open>counts\<close> is ranged over, so it is an association list with distinct keys (a key
  keeps the place of its first insertion). Go leaves the order in which \<^verbatim>\<open>range\<close> visits the
  entries of a map to the runtime, and it may differ from one loop to the next: \<open>map_range\<close>
  lists every order, and a function that ranges over a map returns the list of the results it
  can return, one for each order.
\<close>

fun insert_everywhere :: "'a \<Rightarrow> 'a list \<Rightarrow> 'a list list" where
  "insert_everywhere x [] = [[x]]"
| "insert_everywhere x (y # ys) = (x # y # ys) # map ((#) y) (insert_everywhere x ys)"

fun permutations :: "'a list \<Rightarrow> 'a list list" where
  "permutations [] = [[]]"
| "permutations (x # xs) = concat (map (insert_everywhere x) (permutations xs))"

definition map_range :: "('k \<times> 'v) list \<Rightarrow> ('k \<times> 'v) list list" where
  "map_range m = permutations m"

definition counts_incr :: "(string \<times> nat) list \<Rightarrow> string \<Rightarrow> (string \<times> nat) list" where
  "counts_incr counts k = AList.update k (Suc (count_of (map_of counts) k)) counts"

definition headerMatches_range_body ::
  "GoLib \<Rightarrow> Path \<Rightarrow> string \<times> nat \<Rightarrow> FieldError list \<Rightarrow> FieldError list" where
  "headerMatches_range_body lib path entry errs =
     (case entry of (name, cnt) \<Rightarrow>
        if cnt > 1
        then errs @ [Invalid path (StringValue (CanonicalHeaderKey lib name))
                       ''cannot match the same header multiple times in the same rule'']
        else errs)"

definition validateHTTPHeaderMatches ::
  "GoLib \<Rightarrow> HTTPHeaderMatch list \<Rightarrow> Path \<Rightarrow> FieldError list list" where
  "validateHTTPHeaderMatches lib matches path =
     (let counts = fold (\<lambda>match counts. counts_incr counts (ToLower lib (HTTPHeaderMatch_Name match)))
                     matches []
      in map (\<lambda>entries. fold (headerMatches_range_body lib path) entries [])
           (map_range counts))"

section \<open>ValidateHTTPRouteSpec\<close>

text \<open>
  Each loop threads \<^verbatim>\<open>errs\<close>. The loop over the backend references has one result; the loops
  over the match blocks and over the rules call \<open>validateHTTPHeaderMatches\<close> and so return
  the list of their possible results. The route and its spec are values: a caller that passes a
  \<^verbatim>\<open>nil\<close> route is outside the model.
\<close>

fun backendRefs_loop ::
  "GoLib \<Rightarrow> Path \<Rightarrow> nat \<Rightarrow> HTTPRouteMatch list \<Rightarrow> nat \<Rightarrow> HTTPBackendRef list \<Rightarrow>
   FieldError list \<Rightarrow> FieldError list" where
  "backendRefs_loop lib path i matches j [] errs = errs"
| "backendRefs_loop lib path i matches j (backendRef # rest) errs =
     backendRefs_loop lib path i matches (Suc j) rest
       (errs @ validateHTTPRouteFilters lib (HTTPBackendRef_Filters backendRef) matches
                 (Index (Child (Index (Child path ''rules'') i) ''backendRefs'') j))"

fun matches_loop ::
  "GoLib \<Rightarrow> Path \<Rightarrow> nat \<Rightarrow> nat \<Rightarrow> HTTPRouteMatch list \<Rightarrow> FieldError list \<Rightarrow>
   FieldError list list" where
  "matches_loop lib path i j [] errs = [errs]"
| "matches_loop lib path i j (m # rest) errs =
     (let matchPath = Index (Child (Index (Child path ''rules'') i) ''matches'') j
      in if length (HTTPRouteMatch_Headers m) > 0
         then concat (map (\<lambda>herrs. matches_loop lib path i (Suc j) rest (errs @ herrs))
                        (validateHTTPHeaderMatches lib (HTTPRouteMatch_Headers m)
                           (Child matchPath ''headers'')))
         else matches_loop lib path i (Suc j) rest errs)"

fun rules_loop ::
  "GoLib \<Rightarrow> Path \<Rightarrow> nat \<Rightarrow> HTTPRouteRule list \<Rightarrow> FieldError list \<Rightarrow> FieldError list list" where
  "rules_loop lib path i [] errs = [errs]"
| "rules_loop lib path i (rule # rest) errs =
     (let errs1 = errs @ validateHTTPRouteFilters lib (HTTPRouteRule_Filters rule)
                           (HTTPRouteRule_Matches rule) (Index (Child path ''rules'') i);
          errs2 = backendRefs_loop lib path i (HTTPRouteRule_Matches rule) 0
                    (HTTPRouteRule_BackendRefs rule) errs1
      in concat (map (rules_loop lib path (Suc i) rest)
                   (matches_loop lib path i 0 (HTTPRouteRule_Matches rule) errs2)))"

text \<open>Modelled from the spec: \<^verbatim>\<open>ValidateParentRefs\<close> is defined in a file of the package that
  is not among the sources. The spec gives its interface only (parent references and a path to
  a list of errors), so it is the parameter \<open>validateParentRefs\<close>.\<close>

definition ValidateHTTPRouteSpec ::
  "GoLib \<Rightarrow> ('r list \<Rightarrow> Path \<Rightarrow> FieldError list) \<Rightarrow> 'r HTTPRouteSpec \<Rightarrow> Path \<Rightarrow>
   FieldError list list" where
  "ValidateHTTPRouteSpec lib validateParentRefs spec path =
     map (\<lambda>errs. errs @ validateParentRefs (HTTPRouteSpec_ParentRefs spec) (Child path ''spec''))
       (rules_loop lib path 0 (HTTPRouteSpec_Rules spec) [])"

definition ValidateHTTPRoute ::
  "GoLib \<Rightarrow> ('r list \<Rightarrow> Path \<Rightarrow> FieldError list) \<Rightarrow> 'r HTTPRoute \<Rightarrow> FieldError list list" where
  "ValidateHTTPRoute lib validateParentRefs route =
     ValidateHTTPRouteSpec lib validateParentRefs (HTTPRoute_Spec route) (NewPath ''spec'')"

section \<open>The library functions on ASCII names\<close>

text \<open>
  For the concrete runs below: \<^verbatim>\<open>strings.ToLower\<close> on a string of ASCII bytes replaces each
  upper-case letter by its lower-case letter; \<^verbatim>\<open>http.CanonicalHeaderKey\<close> returns a string
  that holds a byte outside the header-token bytes as it is, and otherwise makes the first
  letter and every letter after a hyphen upper case and the other letters lower case.
\<close>

definition ascii_lower :: "char \<Rightarrow> char" where
  "ascii_lower c = (let n = (of_char c :: nat) in if 65 \<le> n \<and> n \<le> 90 then char_of (n + 32) else c)"

definition ascii_upper :: "char \<Rightarrow> char" where
  "ascii_upper c = (let n = (of_char c :: nat) in if 97 \<le> n \<and> n \<le> 122 then char_of (n - 32) else c)"

definition validHeaderFieldByte :: "char \<Rightarrow> bool" where
  "validHeaderFieldByte c =
     (let n = (of_char c :: nat)
      in (48 \<le> n \<and> n \<le> 57) \<or> (65 \<le> n \<and> n \<le> 90) \<or> (97 \<le> n \<and> n \<le> 122)
         \<or> n \<in> {33, 35, 36, 37, 38, 39, 42, 43, 45, 46, 94, 95, 96, 124, 126})"

fun canonical_loop :: "bool \<Rightarrow> string \<Rightarrow> string" where
  "canonical_loop upper [] = []"
| "canonical_loop upper (c # cs) =
     (let c' = (if upper then ascii_upper c else ascii_lower c)
      in c' # canonical_loop (c' = CHR ''-'') cs)"

definition ascii_CanonicalHeaderKey :: "string \<Rightarrow> string" where
  "ascii_CanonicalHeaderKey s = (if list_all validHeaderFieldByte s then canonical_loop True s else s)"

definition ascii_lib :: GoLib where
  "ascii_lib = \<lparr>ToLower = map ascii_lower, CanonicalHeaderKey = ascii_CanonicalHeaderKey\<rparr>"

definition no_parent_errors :: "unit list \<Rightarrow> Path \<Rightarrow> FieldError list" where
  "no_parent_errors parentRefs path = []"

section \<open>Notions used in the statements\<close>

text \<open>
  The actions of a header-modifier filter in the order in which the three loops visit them:
  the child path of the list, the header name and the value an error for that entry carries.
\<close>

definition header_actions :: "Path \<Rightarrow> HTTPHeaderFilter \<Rightarrow> (Path \<times> string \<times> BadValue) list" where
  "header_actions path flt =
     map (\<lambda>a. (Child path ''add'', HTTPHeader_Name a, HeaderValue a)) (HTTPHeaderFilter_Add flt)
     @ map (\<lambda>a. (Child path ''set'', HTTPHeader_Name a, HeaderValue a)) (HTTPHeaderFilter_Set flt)
     @ map (\<lambda>n. (Child path ''remove'', n, StringValue n)) (HTTPHeaderFilter_Remove flt)"

text \<open>The lower-cased names of those actions, in the same order.\<close>

definition action_keys :: "GoLib \<Rightarrow> HTTPHeaderFilter \<Rightarrow> string list" where
  "action_keys lib flt =
     map (ToLower lib)
       (map HTTPHeader_Name (HTTPHeaderFilter_Add flt)
        @ map HTTPHeader_Name (HTTPHeaderFilter_Set flt)
        @ HTTPHeaderFilter_Remove flt)"

definition action_error :: "Path \<times> string \<times> BadValue \<Rightarrow> FieldError" where
  "action_error a = (case a of (p, n, v) \<Rightarrow> Invalid p v ''cannot specify multiple actions for header'')"

text \<open>The lower-cased header name that an error of the header-modifier check is about.\<close>

definition value_key :: "GoLib \<Rightarrow> BadValue \<Rightarrow> string" where
  "value_key lib v =
     (case v of HeaderValue h \<Rightarrow> ToLower lib (HTTPHeader_Name h)
      | StringValue n \<Rightarrow> ToLower lib n
      | _ \<Rightarrow> [])"

definition error_key :: "GoLib \<Rightarrow> FieldError \<Rightarrow> string" where
  "error_key lib e = value_key lib (BadValue e)"

text \<open>The errors of a run of the three loops that has already seen the keys \<open>seen\<close>: an
  action is reported when its key has been seen exactly once.\<close>

fun conflicts :: "GoLib \<Rightarrow> string list \<Rightarrow> (Path \<times> string \<times> BadValue) list \<Rightarrow> FieldError list" where
  "conflicts lib seen [] = []"
| "conflicts lib seen (a # as) =
     (if count_list seen (ToLower lib (fst (snd a))) = 1 then [action_error a] else [])
     @ conflicts lib (seen @ [ToLower lib (fst (snd a))]) as"

text \<open>The map \<^verbatim>\<open>singleAction\<close> after the keys \<open>seen\<close>.\<close>

definition tracks :: "string list \<Rightarrow> (string \<rightharpoonup> bool) \<Rightarrow> bool" where
  "tracks seen m = (\<forall>k. m k = (if count_list seen k = 0 then None else Some (count_list seen k = 1)))"

text \<open>The calls of \<open>validateHTTPHeaderModifier\<close> that a filter at index \<open>i\<close> gives rise to.\<close>

definition modifier_delegations :: "Path \<Rightarrow> nat \<times> HTTPRouteFilter \<Rightarrow> (HTTPHeaderFilter \<times> Path) list" where
  "modifier_delegations path e =
     (case e of (i, f) \<Rightarrow>
        (case HTTPRouteFilter_RequestHeaderModifier f of
           Some hm \<Rightarrow> [(hm, Child (Index path i) ''requestHeaderModifier'')] | None \<Rightarrow> [])
        @ (case HTTPRouteFilter_ResponseHeaderModifier f of
           Some hm \<Rightarrow> [(hm, Child (Index path i) ''responseHeaderModifier'')] | None \<Rightarrow> []))"

definition delegated_errors :: "GoLib \<Rightarrow> Path \<Rightarrow> nat \<Rightarrow> HTTPRouteFilter list \<Rightarrow> FieldError list" where
  "delegated_errors lib path i filters =
     concat (map (\<lambda>c. validateHTTPHeaderModifier lib (fst c) (snd c))
               (concat (map (modifier_delegations path) (enumerate i filters))))"

definition exclusive_detail :: string where
  "exclusive_detail = ''may specify either httpRouteFilterRequestRedirect or httpRouteFilterRequestRewrite, but not both''"

definition exclusive_error :: "Path \<Rightarrow> FieldError" where
  "exclusive_error path =
     Invalid (Child path ''filters'') (FilterTypeValue HTTPRouteFilterRequestRedirect) exclusive_detail"

definition has_kind :: "HTTPRouteFilterType \<Rightarrow> HTTPRouteFilter list \<Rightarrow> bool" where
  "has_kind t filters = (t \<in> set (map HTTPRouteFilter_Type filters))"

text \<open>The lower-cased names of a list of header matches, the error for a duplicated one, and
  the names that occur more than once.\<close>

definition header_keys :: "GoLib \<Rightarrow> HTTPHeaderMatch list \<Rightarrow> string list" where
  "header_keys lib matches = map (\<lambda>match. ToLower lib (HTTPHeaderMatch_Name match)) matches"

definition duplicate_header_error :: "GoLib \<Rightarrow> Path \<Rightarrow> string \<Rightarrow> FieldError" where
  "duplicate_header_error lib path k =
     Invalid path (StringValue (CanonicalHeaderKey lib k))
       ''cannot match the same header multiple times in the same rule''"

definition duplicated_keys :: "GoLib \<Rightarrow> HTTPHeaderMatch list \<Rightarrow> string list" where
  "duplicated_keys lib matches =
     remdups [k \<leftarrow> header_keys lib matches. 1 < count_list (header_keys lib matches) k]"

definition header_violations :: "GoLib \<Rightarrow> HTTPHeaderMatch list \<Rightarrow> Path \<Rightarrow> FieldError multiset" where
  "header_violations lib matches path =
     mset (map (duplicate_header_error lib path) (duplicated_keys lib matches))"

text \<open>The errors of every check of a rule, and of a spec, as multisets.\<close>

definition backendRef_errors ::
  "GoLib \<Rightarrow> Path \<Rightarrow> nat \<Rightarrow> HTTPRouteMatch list \<Rightarrow> nat \<times> HTTPBackendRef \<Rightarrow> FieldError list" where
  "backendRef_errors lib path i matches e =
     (case e of (j, backendRef) \<Rightarrow>
        validateHTTPRouteFilters lib (HTTPBackendRef_Filters backendRef) matches
          (Index (Child (Index (Child path ''rules'') i) ''backendRefs'') j))"

definition match_violations ::
  "GoLib \<Rightarrow> Path \<Rightarrow> nat \<Rightarrow> nat \<times> HTTPRouteMatch \<Rightarrow> FieldError multiset" where
  "match_violations lib path i e =
     (case e of (j, m) \<Rightarrow>
        header_violations lib (HTTPRouteMatch_Headers m)
          (Child (Index (Child (Index (Child path ''rules'') i) ''matches'') j) ''headers''))"

definition rule_violations :: "GoLib \<Rightarrow> Path \<Rightarrow> nat \<times> HTTPRouteRule \<Rightarrow> FieldError multiset" where
  "rule_violations lib path e =
     (case e of (i, rule) \<Rightarrow>
        mset (validateHTTPRouteFilters lib (HTTPRouteRule_Filters rule) (HTTPRouteRule_Matches rule)
                (Index (Child path ''rules'') i))
        + mset (concat (map (backendRef_errors lib path i (HTTPRouteRule_Matches rule))
                          (enumerate 0 (HTTPRouteRule_BackendRefs rule))))
        + sum_list (map (match_violations lib path i) (enumerate 0 (HTTPRouteRule_Matches rule))))"

definition all_violations ::
  "GoLib \<Rightarrow> ('r list \<Rightarrow> Path \<Rightarrow> FieldError list) \<Rightarrow> 'r HTTPRouteSpec \<Rightarrow> Path \<Rightarrow>
   FieldError multiset" where
  "all_violations lib validateParentRefs spec path =
     sum_list (map (rule_violations lib path) (enumerate 0 (HTTPRouteSpec_Rules spec)))
     + mset (validateParentRefs (HTTPRouteSpec_ParentRefs spec) (Child path ''spec''))"

text \<open>The results of validating one rule, at index \<open>i\<close>, on its own.\<close>

definition rule_outcomes :: "GoLib \<Rightarrow> Path \<Rightarrow> nat \<Rightarrow> HTTPRouteRule \<Rightarrow> FieldError list list" where
  "rule_outcomes lib path i rule = rules_loop lib path i [rule] []"

text \<open>No match block of the spec has more than one duplicated header name.\<close>

definition single_duplicate :: "GoLib \<Rightarrow> 'r HTTPRouteSpec \<Rightarrow> bool" where
  "single_duplicate lib spec =
     list_all (\<lambda>rule. list_all (\<lambda>m. length (duplicated_keys lib (HTTPRouteMatch_Headers m)) \<le> 1)
                         (HTTPRouteRule_Matches rule))
       (HTTPRouteSpec_Rules spec)"

section \<open>Inputs of the concrete runs\<close>

definition mk_header :: "string \<Rightarrow> string \<Rightarrow> HTTPHeader" where
  "mk_header n v = \<lparr>HTTPHeader_Name = n, HTTPHeader_Value = v\<rparr>"

definition mk_filter :: "HTTPRouteFilterType \<Rightarrow> HTTPRouteFilter" where
  "mk_filter t = \<lparr>HTTPRouteFilter_Type = t, HTTPRouteFilter_RequestHeaderModifier = None,
                  HTTPRouteFilter_ResponseHeaderModifier = None\<rparr>"

definition fruit_filter :: HTTPHeaderFilter where
  "fruit_filter =
     \<lparr>HTTPHeaderFilter_Set = [mk_header ''X-Fruit'' ''watermelon'', mk_header ''x-grain'' ''wheat'',
                              mk_header ''x-spice'' ''coriander''],
      HTTPHeaderFilter_Add = [mk_header ''x-fruit'' ''apple'', mk_header ''x-vegetable'' ''carrot'',
                              mk_header ''x-grain'' ''rye''],
      HTTPHeaderFilter_Remove = [''x-fruit'']\<rparr>"

definition dup_headers :: "HTTPHeaderMatch list" where
  "dup_headers =
     [\<lparr>HTTPHeaderMatch_Name = ''Header-Name-1'', HTTPHeaderMatch_Value = ''val-1''\<rparr>,
      \<lparr>HTTPHeaderMatch_Name = ''Header-Name-2'', HTTPHeaderMatch_Value = ''val-2''\<rparr>,
      \<lparr>HTTPHeaderMatch_Name = ''HEADER-NAME-2'', HTTPHeaderMatch_Value = ''val-3''\<rparr>]"

definition misplaced_modifier :: HTTPRouteFilter where
  "misplaced_modifier =
     \<lparr>HTTPRouteFilter_Type = HTTPRouteFilterRequestRedirect,
      HTTPRouteFilter_RequestHeaderModifier =
        Some \<lparr>HTTPHeaderFilter_Set = [],
              HTTPHeaderFilter_Add = [mk_header ''x-fruit'' ''apple'', mk_header ''x-fruit'' ''plum''],
              HTTPHeaderFilter_Remove = []\<rparr>,
      HTTPRouteFilter_ResponseHeaderModifier = None\<rparr>"

definition mk_route :: "HTTPRouteRule list \<Rightarrow> unit HTTPRoute" where
  "mk_route rules =
     \<lparr>HTTPRoute_Spec = \<lparr>HTTPRouteSpec_ParentRefs = [], HTTPRouteSpec_Rules = rules\<rparr>\<rparr>"

definition test_backendRef :: HTTPBackendRef where
  "test_backendRef = \<lparr>HTTPBackendRef_Filters = []\<rparr>"

definition query_rule :: HTTPRouteRule where
  "query_rule =
     \<lparr>HTTPRouteRule_Matches =
        [\<lparr>HTTPRouteMatch_Headers = [],
          HTTPRouteMatch_QueryParams =
            [\<lparr>HTTPQueryParamMatch_Name = ''query-param-1'', HTTPQueryParamMatch_Value = ''val-1''\<rparr>,
             \<lparr>HTTPQueryParamMatch_Name = ''query-param-2'', HTTPQueryParamMatch_Value = ''val-2''\<rparr>,
             \<lparr>HTTPQueryParamMatch_Name = ''query-param-1'', HTTPQueryParamMatch_Value = ''val-3''\<rparr>]\<rparr>],
      HTTPRouteRule_Filters = [],
      HTTPRouteRule_BackendRefs = [test_backendRef]\<rparr>"

definition header_rule :: "HTTPHeaderMatch list \<Rightarrow> HTTPRouteRule" where
  "header_rule headers =
     \<lparr>HTTPRouteRule_Matches =
        [\<lparr>HTTPRouteMatch_Headers = headers, HTTPRouteMatch_QueryParams = []\<rparr>],
      HTTPRouteRule_Filters = [],
      HTTPRouteRule_BackendRefs = [test_backendRef]\<rparr>"

definition two_dup_headers :: "HTTPHeaderMatch list" where
  "two_dup_headers =
     [\<lparr>HTTPHeaderMatch_Name = ''X-A'', HTTPHeaderMatch_Value = ''1''\<rparr>,
      \<lparr>HTTPHeaderMatch_Name = ''X-B'', HTTPHeaderMatch_Value = ''2''\<rparr>,
      \<lparr>HTTPHeaderMatch_Name = ''x-a'', HTTPHeaderMatch_Value = ''3''\<rparr>,
      \<lparr>HTTPHeaderMatch_Name = ''x-b'', HTTPHeaderMatch_Value = ''4''\<rparr>]"

definition two_dup_path :: Path where
  "two_dup_path =
     Child (Index (Child (Index (Child (NewPath ''spec'') ''rules'') 0) ''matches'') 0) ''headers''"

definition redirect_rewrite_rule :: HTTPRouteRule where
  "redirect_rewrite_rule =
     \<lparr>HTTPRouteRule_Matches = [],
      HTTPRouteRule_Filters =
        [mk_filter HTTPRouteFilterRequestRedirect, mk_filter HTTPRouteFilterURLRewrite],
      HTTPRouteRule_BackendRefs = []\<rparr>"

definition one_parent_error :: "unit list \<Rightarrow> Path \<Rightarrow> FieldError list" where
  "one_parent_error parentRefs path =
     [Invalid (Child path ''parentRefs'') (OpaqueValue ''parent'') ''reported by the collaborator'']"

definition two_rule_spec :: "unit HTTPRouteSpec" where
  "two_rule_spec = HTTPRoute_Spec (mk_route [header_rule dup_headers, redirect_rewrite_rule])"

definition two_rule_errors :: "FieldError list" where
  "two_rule_errors =
     [Invalid (Child (Index (Child (Index (Child (NewPath ''spec'') ''rules'') 0) ''matches'') 0) ''headers'')
        (StringValue ''Header-Name-2'') ''cannot match the same header multiple times in the same rule'',
      exclusive_error (Index (Child (NewPath ''spec'') ''rules'') 1),
      Invalid (Child (Child (NewPath ''spec'') ''spec'') ''parentRefs'') (OpaqueValue ''parent'')
        ''reported by the collaborator'']"

definition one_rule_errors :: "FieldError list" where
  "one_rule_errors =
     [Invalid (Child (Index (Child (Index (Child (NewPath ''spec'') ''rules'') 0) ''matches'') 0) ''headers'')
        (StringValue ''Header-Name-2'') ''cannot match the same header multiple times in the same rule'',
      Invalid (Child (Child (NewPath ''spec'') ''spec'') ''parentRefs'') (OpaqueValue ''parent'')
        ''reported by the collaborator'']"

section \<open>The header-modifier check\<close>

lemma tracks_empty: "tracks [] Map.empty"
  by (simp add: tracks_def)

lemma run_conflicts:
  "tracks seen m \<Longrightarrow>
   fst (fold (\<lambda>a. singleAction_step lib (fst a) (fst (snd a)) (snd (snd a))) acts (errs, m))
     = errs @ conflicts lib seen acts"
proof (induction acts arbitrary: seen m errs)
  case Nil
  then show ?case by simp
next
  case (Cons a as)
  let ?k = "ToLower lib (fst (snd a))"
  obtain errs' m' where
    st: "singleAction_step lib (fst a) (fst (snd a)) (snd (snd a)) (errs, m) = (errs', m')"
    by (cases "singleAction_step lib (fst a) (fst (snd a)) (snd (snd a)) (errs, m)")
  have mk: "m ?k = (if count_list seen ?k = 0 then None else Some (count_list seen ?k = 1))"
    using Cons.prems by (simp add: tracks_def)
  have e': "errs' = errs @ (if count_list seen ?k = 1 then [action_error a] else [])"
    using st mk
    by (cases a) (auto simp: singleAction_step_def action_error_def split: option.splits if_splits)
  have m': "m' = m(?k \<mapsto> (count_list seen ?k = 0))"
    using st mk by (auto simp: singleAction_step_def split: option.splits if_splits)
  have "tracks (seen @ [?k]) m'"
    using Cons.prems unfolding tracks_def m' by auto
  from Cons.IH[OF this, of errs'] show ?case
    using st e' by simp
qed

lemma validateHTTPHeaderModifier_conflicts:
  "validateHTTPHeaderModifier lib flt path = conflicts lib [] (header_actions path flt)"
proof -
  have "validateHTTPHeaderModifier lib flt path
        = fst (fold (\<lambda>a. singleAction_step lib (fst a) (fst (snd a)) (snd (snd a)))
                 (header_actions path flt) ([], Map.empty))"
    by (simp add: validateHTTPHeaderModifier_def header_actions_def fold_map comp_def Let_def)
  then show ?thesis
    using run_conflicts[OF tracks_empty, of lib "header_actions path flt" "[]"] by simp
qed

lemma conflicts_index:
  "conflicts lib seen acts =
     map (\<lambda>i. action_error (acts ! i))
       [i \<leftarrow> [0..<length acts].
          count_list (seen @ take i (map (\<lambda>a. ToLower lib (fst (snd a))) acts))
            (ToLower lib (fst (snd (acts ! i)))) = 1]"
proof (induction acts arbitrary: seen)
  case Nil
  then show ?case by simp
next
  case (Cons a as)
  have upt: "[0..<length (a # as)] = 0 # map Suc [0..<length as]"
    by (simp add: upt_conv_Cons map_Suc_upt del: upt_Suc)
  show ?case
    unfolding upt by (simp add: Cons.IH filter_map comp_def)
qed

lemma conflicts_count:
  "\<forall>a \<in> set acts. value_key lib (snd (snd a)) = ToLower lib (fst (snd a)) \<Longrightarrow>
   length [e \<leftarrow> conflicts lib seen acts. error_key lib e = k]
     = (if count_list seen k \<le> 1
           \<and> 1 < count_list seen k + count_list (map (\<lambda>a. ToLower lib (fst (snd a))) acts) k
        then 1 else 0)"
proof (induction acts arbitrary: seen)
  case Nil
  then show ?case by simp
next
  case (Cons a as)
  let ?k = "ToLower lib (fst (snd a))"
  have key: "error_key lib (action_error a) = ?k"
    using Cons.prems by (cases a) (simp add: error_key_def action_error_def Invalid_def)
  have IH: "length [e \<leftarrow> conflicts lib (seen @ [?k]) as. error_key lib e = k]
     = (if count_list (seen @ [?k]) k \<le> 1
           \<and> 1 < count_list (seen @ [?k]) k
                 + count_list (map (\<lambda>a. ToLower lib (fst (snd a))) as) k
        then 1 else 0)"
    using Cons.prems by (intro Cons.IH) simp
  show ?case
    by (auto simp: IH key)
qed

lemma conflicts_detail:
  "e \<in> set (conflicts lib seen acts) \<Longrightarrow> Detail e = ''cannot specify multiple actions for header''"
  by (induction acts arbitrary: seen)
     (auto simp: action_error_def Invalid_def split: if_splits prod.splits)

lemma header_actions_keys:
  "map (\<lambda>a. ToLower lib (fst (snd a))) (header_actions path flt) = action_keys lib flt"
  by (simp add: header_actions_def action_keys_def comp_def)

lemma header_actions_wf:
  "\<forall>a \<in> set (header_actions path flt). value_key lib (snd (snd a)) = ToLower lib (fst (snd a))"
  by (auto simp: header_actions_def value_key_def)

lemma validateHTTPHeaderModifier_detail:
  "e \<in> set (validateHTTPHeaderModifier lib hm p) \<Longrightarrow>
   Detail e = ''cannot specify multiple actions for header''"
  unfolding validateHTTPHeaderModifier_conflicts by (rule conflicts_detail)

text \<open>
  C2. For every header-modifier filter, with the actions of Add, Set and Remove taken in that
  order and the names lower-cased: the errors are exactly the actions whose name has occurred
  exactly once before, that is the second occurrence of each name, each at the child path
  (add, set or remove) of the list that holds that second occurrence and in the order of the
  actions; so for every name the number of errors about it is one when more than one action
  targets it, whether in one list or across lists and however many repeats follow, and none
  otherwise.
\<close>

theorem validateHTTPHeaderModifier_one_error_per_name:
  "validateHTTPHeaderModifier lib flt path =
     map (\<lambda>i. action_error (header_actions path flt ! i))
       [i \<leftarrow> [0..<length (action_keys lib flt)].
          count_list (take i (action_keys lib flt)) (action_keys lib flt ! i) = 1]
   \<and> length [e \<leftarrow> validateHTTPHeaderModifier lib flt path. error_key lib e = k]
       = (if 1 < count_list (action_keys lib flt) k then 1 else 0)"
proof
  have len: "length (header_actions path flt) = length (action_keys lib flt)"
    using header_actions_keys[of lib path flt, THEN arg_cong, of length] by simp
  have nth: "i < length (header_actions path flt) \<Longrightarrow>
        ToLower lib (fst (snd (header_actions path flt ! i))) = action_keys lib flt ! i" for i
    using header_actions_keys[of lib path flt] by (metis nth_map)
  show "validateHTTPHeaderModifier lib flt path =
     map (\<lambda>i. action_error (header_actions path flt ! i))
       [i \<leftarrow> [0..<length (action_keys lib flt)].
          count_list (take i (action_keys lib flt)) (action_keys lib flt ! i) = 1]"
    unfolding validateHTTPHeaderModifier_conflicts conflicts_index header_actions_keys len
    by (intro arg_cong[where f="map _"] filter_cong refl) (simp add: nth len)
  show "length [e \<leftarrow> validateHTTPHeaderModifier lib flt path. error_key lib e = k]
       = (if 1 < count_list (action_keys lib flt) k then 1 else 0)"
    unfolding validateHTTPHeaderModifier_conflicts
    using conflicts_count[OF header_actions_wf, where seen="[]" and k=k and lib=lib
                            and path1=path and flt1=flt]
    by (simp add: header_actions_keys)
qed

theorem validateHTTPHeaderModifier_one_error_per_name_witness:
  "validateHTTPHeaderModifier ascii_lib fruit_filter (NewPath ''f'') =
     [Invalid (Child (NewPath ''f'') ''set'') (HeaderValue (mk_header ''X-Fruit'' ''watermelon''))
        ''cannot specify multiple actions for header'',
      Invalid (Child (NewPath ''f'') ''set'') (HeaderValue (mk_header ''x-grain'' ''wheat''))
        ''cannot specify multiple actions for header'']
   \<and> length [e \<leftarrow> validateHTTPHeaderModifier ascii_lib fruit_filter (NewPath ''f'').
                error_key ascii_lib e = ''x-fruit''] = 1"
proof -
  have idx: "map (\<lambda>i. action_error (header_actions (NewPath ''f'') fruit_filter ! i))
       [i \<leftarrow> [0..<length (action_keys ascii_lib fruit_filter)].
          count_list (take i (action_keys ascii_lib fruit_filter))
            (action_keys ascii_lib fruit_filter ! i) = 1]
     = [Invalid (Child (NewPath ''f'') ''set'') (HeaderValue (mk_header ''X-Fruit'' ''watermelon''))
        ''cannot specify multiple actions for header'',
      Invalid (Child (NewPath ''f'') ''set'') (HeaderValue (mk_header ''x-grain'' ''wheat''))
        ''cannot specify multiple actions for header'']"
    by code_simp
  have cnt: "1 < count_list (action_keys ascii_lib fruit_filter) ''x-fruit''"
    by code_simp
  note t = validateHTTPHeaderModifier_one_error_per_name
             [of ascii_lib fruit_filter "NewPath ''f''" "''x-fruit''"]
  from t have a: "validateHTTPHeaderModifier ascii_lib fruit_filter (NewPath ''f'') =
     map (\<lambda>i. action_error (header_actions (NewPath ''f'') fruit_filter ! i))
       [i \<leftarrow> [0..<length (action_keys ascii_lib fruit_filter)].
          count_list (take i (action_keys ascii_lib fruit_filter))
            (action_keys ascii_lib fruit_filter ! i) = 1]"
    by (rule conjunct1)
  from t[THEN conjunct2] cnt
  have b: "length [e \<leftarrow> validateHTTPHeaderModifier ascii_lib fruit_filter (NewPath ''f'').
                     error_key ascii_lib e = ''x-fruit''] = 1"
    by (simp only: if_True)
  show ?thesis
    using a[unfolded idx] b by (rule conjI)
qed

section \<open>The filter-list check\<close>

lemma filters_loop_errs:
  "fst (filters_loop lib path i fs (errs, counts)) = errs @ delegated_errors lib path i fs"
proof (induction fs arbitrary: i errs counts)
  case Nil
  then show ?case by (simp add: delegated_errors_def)
next
  case (Cons f fs)
  show ?case
    by (simp add: Cons.IH Let_def delegated_errors_def modifier_delegations_def
             split: option.splits)
qed

lemma filters_loop_counts:
  "count_of (snd (filters_loop lib path i fs (errs, counts))) t
     = count_of counts t + count_list (map HTTPRouteFilter_Type fs) t"
proof (induction fs arbitrary: i errs counts)
  case Nil
  then show ?case by simp
next
  case (Cons f fs)
  show ?case
    by (simp add: Cons.IH Let_def) (simp add: count_of_def)
qed

lemma count_list_pos: "0 < count_list xs x \<longleftrightarrow> x \<in> set xs"
  using count_list_0_iff[of xs x] by auto

lemma validateHTTPRouteFilters_char:
  "validateHTTPRouteFilters lib filters matches path =
     delegated_errors lib path 0 filters
     @ (if has_kind HTTPRouteFilterRequestRedirect filters \<and> has_kind HTTPRouteFilterURLRewrite filters
        then [exclusive_error path] else [])"
proof -
  obtain errs counts where st: "filters_loop lib path 0 filters ([], Map.empty) = (errs, counts)"
    by (cases "filters_loop lib path 0 filters ([], Map.empty)")
  have e: "errs = delegated_errors lib path 0 filters"
    using filters_loop_errs[of lib path 0 filters "[]" Map.empty] st by simp
  have c: "count_of counts t = count_list (map HTTPRouteFilter_Type filters) t" for t
    using filters_loop_counts[of lib path 0 filters "[]" Map.empty t] st by (simp add: count_of_def)
  show ?thesis
    unfolding validateHTTPRouteFilters_def st
    by (simp add: e c count_list_pos has_kind_def exclusive_error_def exclusive_detail_def)
qed

lemma delegated_errors_detail:
  "e \<in> set (delegated_errors lib path i fs) \<Longrightarrow>
   Detail e = ''cannot specify multiple actions for header''"
  by (auto simp: delegated_errors_def dest: validateHTTPHeaderModifier_detail)

text \<open>
  C5 as stated fails: a filter whose type is RequestRedirect and that carries a
  \<open>requestHeaderModifier\<close> payload has the header-modifier check run on that payload. The
  result below is the error of that check.
\<close>

theorem validateHTTPRouteFilters_modifier_payload_on_redirect:
  "HTTPRouteFilter_Type misplaced_modifier = HTTPRouteFilterRequestRedirect
   \<and> validateHTTPRouteFilters ascii_lib [misplaced_modifier] [] (NewPath ''rule'')
     = [Invalid (Child (Child (Index (NewPath ''rule'') 0) ''requestHeaderModifier'') ''add'')
          (HeaderValue (mk_header ''x-fruit'' ''plum''))
          ''cannot specify multiple actions for header'']"
  by code_simp

text \<open>
  C5, amended. For every filter list, the header-modifier check is called exactly for the
  filters whose request or response header-modifier payload is present, whatever their type,
  in list order and request payload first, on that payload and at the path of the filter's
  index followed by \<open>requestHeaderModifier\<close> or \<open>responseHeaderModifier\<close>; the errors of
  these calls, followed by the error for mutually exclusive kinds when it applies, are the
  whole result. A filter with neither payload gives rise to no call.
\<close>

theorem validateHTTPRouteFilters_delegates_by_payload:
  "validateHTTPRouteFilters lib filters matches path =
     concat (map (\<lambda>c. validateHTTPHeaderModifier lib (fst c) (snd c))
               (concat (map (modifier_delegations path) (enumerate 0 filters))))
     @ (if has_kind HTTPRouteFilterRequestRedirect filters \<and> has_kind HTTPRouteFilterURLRewrite filters
        then [exclusive_error path] else [])"
  using validateHTTPRouteFilters_char[of lib filters matches path]
  by (simp add: delegated_errors_def)

theorem validateHTTPRouteFilters_delegates_by_payload_witness:
  "concat (map (modifier_delegations (NewPath ''rule''))
             (enumerate 0 [mk_filter HTTPRouteFilterRequestHeaderModifier, misplaced_modifier]))
     = [(the (HTTPRouteFilter_RequestHeaderModifier misplaced_modifier),
         Child (Index (NewPath ''rule'') 1) ''requestHeaderModifier'')]
   \<and> validateHTTPRouteFilters ascii_lib
        [mk_filter HTTPRouteFilterRequestHeaderModifier, misplaced_modifier] [] (NewPath ''rule'')
     = validateHTTPHeaderModifier ascii_lib
         (the (HTTPRouteFilter_RequestHeaderModifier misplaced_modifier))
         (Child (Index (NewPath ''rule'') 1) ''requestHeaderModifier'')"
proof -
  have d: "concat (map (modifier_delegations (NewPath ''rule''))
             (enumerate 0 [mk_filter HTTPRouteFilterRequestHeaderModifier, misplaced_modifier]))
     = [(the (HTTPRouteFilter_RequestHeaderModifier misplaced_modifier),
         Child (Index (NewPath ''rule'') 1) ''requestHeaderModifier'')]"
    by code_simp
  have k: "\<not> (has_kind HTTPRouteFilterRequestRedirect
                 [mk_filter HTTPRouteFilterRequestHeaderModifier, misplaced_modifier]
              \<and> has_kind HTTPRouteFilterURLRewrite
                 [mk_filter HTTPRouteFilterRequestHeaderModifier, misplaced_modifier])"
    by code_simp
  from validateHTTPRouteFilters_delegates_by_payload
         [of ascii_lib "[mk_filter HTTPRouteFilterRequestHeaderModifier, misplaced_modifier]"
             "[]" "NewPath ''rule''", unfolded d] k
  have "validateHTTPRouteFilters ascii_lib
        [mk_filter HTTPRouteFilterRequestHeaderModifier, misplaced_modifier] [] (NewPath ''rule'')
     = validateHTTPHeaderModifier ascii_lib
         (the (HTTPRouteFilter_RequestHeaderModifier misplaced_modifier))
         (Child (Index (NewPath ''rule'') 1) ''requestHeaderModifier'')"
    by simp
  with d show ?thesis by (rule conjI)
qed

text \<open>
  C10. The result of \<open>validateHTTPRouteFilters\<close> is the same for any two lists of match
  blocks passed with the same filters and path.
\<close>

theorem validateHTTPRouteFilters_ignores_matches:
  "validateHTTPRouteFilters lib filters matches path
     = validateHTTPRouteFilters lib filters matches' path"
  by (simp add: validateHTTPRouteFilters_def)

section \<open>The header-match check\<close>

lemma insert_everywhere_mset:
  "ys \<in> set (insert_everywhere x xs) \<Longrightarrow> mset ys = add_mset x (mset xs)"
  by (induction xs arbitrary: ys) auto

lemma insert_everywhere_nonempty: "insert_everywhere x xs \<noteq> []"
  by (cases xs) auto

lemma permutations_mset: "ys \<in> set (permutations xs) \<Longrightarrow> mset ys = mset xs"
  by (induction xs arbitrary: ys) (auto dest: insert_everywhere_mset)

lemma permutations_nonempty: "permutations xs \<noteq> []"
proof (induction xs)
  case Nil
  then show ?case by simp
next
  case (Cons x xs)
  then obtain p ps where "permutations xs = p # ps" by (cases "permutations xs") auto
  then show ?case using insert_everywhere_nonempty[of x p] by simp
qed

lemma counts_fold_distinct:
  "distinct (map fst al) \<Longrightarrow>
   distinct (map fst (fold (\<lambda>match counts. counts_incr counts (f match)) ms al))"
  by (induction ms arbitrary: al) (auto simp: counts_incr_def distinct_update)

lemma counts_fold_lookup:
  "count_of (map_of (fold (\<lambda>match counts. counts_incr counts (f match)) ms al)) k
     = count_of (map_of al) k + count_list (map f ms) k"
proof (induction ms arbitrary: al)
  case Nil
  then show ?case by simp
next
  case (Cons m ms)
  show ?case
    by (simp add: Cons.IH) (simp add: counts_incr_def update_conv' count_of_def)
qed

lemma range_body_fold:
  "fold (headerMatches_range_body lib path) entries errs
     = errs @ map (duplicate_header_error lib path) (map fst [e \<leftarrow> entries. 1 < snd e])"
  by (induction entries arbitrary: errs)
     (auto simp: headerMatches_range_body_def duplicate_header_error_def split: prod.splits)

lemma counts_dup_keys:
  assumes cs: "cs = fold (\<lambda>match counts. counts_incr counts (ToLower lib (HTTPHeaderMatch_Name match))) ms []"
  shows "distinct (map fst cs)"
    and "fst ` {e \<in> set cs. 1 < snd e} = {k. 1 < count_list (header_keys lib ms) k}"
proof -
  show d: "distinct (map fst cs)"
    unfolding cs by (rule counts_fold_distinct) simp
  have look: "count_of (map_of cs) k = count_list (header_keys lib ms) k" for k
    unfolding cs header_keys_def counts_fold_lookup by (simp add: count_of_def)
  have mem: "(k, c) \<in> set cs \<Longrightarrow> c = count_list (header_keys lib ms) k" for k c
    using look[of k] d by (simp add: count_of_def)
  have pos: "1 < count_list (header_keys lib ms) k \<Longrightarrow> (k, count_list (header_keys lib ms) k) \<in> set cs" for k
    using look[of k] by (auto simp: count_of_def split: option.splits dest: map_of_SomeD)
  show "fst ` {e \<in> set cs. 1 < snd e} = {k. 1 < count_list (header_keys lib ms) k}"
  proof (intro set_eqI iffI)
    fix k assume "k \<in> fst ` {e \<in> set cs. 1 < snd e}"
    then obtain c where "(k, c) \<in> set cs" "1 < c" by auto
    then show "k \<in> {k. 1 < count_list (header_keys lib ms) k}" using mem by auto
  next
    fix k assume "k \<in> {k. 1 < count_list (header_keys lib ms) k}"
    then have "1 < count_list (header_keys lib ms) k" by simp
    from pos[OF this] this show "k \<in> fst ` {e \<in> set cs. 1 < snd e}" by force
  qed
qed

lemma validateHTTPHeaderMatches_outcome:
  assumes "errs \<in> set (validateHTTPHeaderMatches lib ms path)"
  shows "\<exists>ks. distinct ks \<and> set ks = {k. 1 < count_list (header_keys lib ms) k}
              \<and> errs = map (duplicate_header_error lib path) ks"
proof -
  define cs where "cs = fold (\<lambda>match counts. counts_incr counts (ToLower lib (HTTPHeaderMatch_Name match))) ms []"
  from assms obtain entries where p: "entries \<in> set (permutations cs)"
    and e: "errs = fold (headerMatches_range_body lib path) entries []"
    by (auto simp: validateHTTPHeaderMatches_def map_range_def cs_def Let_def)
  have m: "mset entries = mset cs" using p by (rule permutations_mset)
  let ?ks = "map fst [e \<leftarrow> entries. 1 < snd e]"
  have "distinct (map fst entries)"
    using counts_dup_keys(1)[OF cs_def] m
    by (metis mset_map mset_eq_imp_distinct_iff)
  then have d: "distinct ?ks" by (simp add: distinct_map_filter)
  have "set entries = set cs" using m by (rule mset_eq_setD)
  then have s: "set ?ks = {k. 1 < count_list (header_keys lib ms) k}"
    using counts_dup_keys(2)[OF cs_def] by auto
  show ?thesis
    using d s e by (intro exI[of _ ?ks]) (simp add: range_body_fold)
qed

lemma validateHTTPHeaderMatches_nonempty: "validateHTTPHeaderMatches lib ms path \<noteq> []"
  by (simp add: validateHTTPHeaderMatches_def map_range_def Let_def permutations_nonempty)

lemma duplicated_keys_set:
  "distinct (duplicated_keys lib ms)"
  "set (duplicated_keys lib ms) = {k. 1 < count_list (header_keys lib ms) k}"
proof -
  have "1 < count_list xs k \<Longrightarrow> k \<in> set xs" for xs :: "string list" and k
    by (rule ccontr) (simp add: count_notin)
  then show "set (duplicated_keys lib ms) = {k. 1 < count_list (header_keys lib ms) k}"
    by (auto simp: duplicated_keys_def)
  show "distinct (duplicated_keys lib ms)"
    by (simp add: duplicated_keys_def)
qed

lemma validateHTTPHeaderMatches_mset:
  assumes "errs \<in> set (validateHTTPHeaderMatches lib ms path)"
  shows "mset errs = header_violations lib ms path"
proof -
  from validateHTTPHeaderMatches_outcome[OF assms] obtain ks where
    ks: "distinct ks" "set ks = {k. 1 < count_list (header_keys lib ms) k}"
        "errs = map (duplicate_header_error lib path) ks" by blast
  have "mset ks = mset (duplicated_keys lib ms)"
    using ks(1,2) duplicated_keys_set[of lib ms] by (metis set_eq_iff_mset_eq_distinct)
  then show ?thesis
    unfolding header_violations_def ks(3) by (metis mset_map)
qed

text \<open>
  C4. For every list of header matches and path, \<open>validateHTTPHeaderMatches\<close> has a result,
  and each of its results is, for some order of the lower-cased names that occur more than
  once, the list of one error per such name: at the path given (the headers field of the match
  block, with no index), with the canonical header form of the lower-cased name as its value
  and the message that the same header cannot be matched multiple times in the same rule. A
  name that occurs once has no error.
\<close>

theorem validateHTTPHeaderMatches_one_error_per_duplicate:
  "validateHTTPHeaderMatches lib matches path \<noteq> []
   \<and> (\<forall>errs \<in> set (validateHTTPHeaderMatches lib matches path).
        \<exists>ks. distinct ks \<and> set ks = {k. 1 < count_list (header_keys lib matches) k}
             \<and> errs = map (duplicate_header_error lib path) ks)"
  using validateHTTPHeaderMatches_nonempty validateHTTPHeaderMatches_outcome by blast

theorem validateHTTPHeaderMatches_one_error_per_duplicate_witness:
  "[Invalid (NewPath ''headers'') (StringValue ''Header-Name-2'')
      ''cannot match the same header multiple times in the same rule'']
     \<in> set (validateHTTPHeaderMatches ascii_lib dup_headers (NewPath ''headers''))
   \<and> (\<exists>ks. distinct ks \<and> set ks = {k. 1 < count_list (header_keys ascii_lib dup_headers) k}
        \<and> [Invalid (NewPath ''headers'') (StringValue ''Header-Name-2'')
              ''cannot match the same header multiple times in the same rule'']
           = map (duplicate_header_error ascii_lib (NewPath ''headers'')) ks)"
proof -
  have m: "[Invalid (NewPath ''headers'') (StringValue ''Header-Name-2'')
      ''cannot match the same header multiple times in the same rule'']
     \<in> set (validateHTTPHeaderMatches ascii_lib dup_headers (NewPath ''headers''))"
    by code_simp
  from validateHTTPHeaderMatches_one_error_per_duplicate
         [of ascii_lib dup_headers "NewPath ''headers''", THEN conjunct2, THEN bspec, OF m] m
  show ?thesis by (rule conjI[rotated])
qed

section \<open>The loops of ValidateHTTPRouteSpec\<close>

lemma backendRefs_loop_char:
  "backendRefs_loop lib path i matches j bs errs
     = errs @ concat (map (backendRef_errors lib path i matches) (enumerate j bs))"
  by (induction bs arbitrary: j errs) (simp_all add: backendRef_errors_def)

lemma header_violations_Nil: "header_violations lib [] path = {#}"
  by (simp add: header_violations_def duplicated_keys_def header_keys_def)

lemma matches_loop_mset:
  "e \<in> set (matches_loop lib path i j ms errs) \<Longrightarrow>
   mset e = mset errs + sum_list (map (match_violations lib path i) (enumerate j ms))"
proof (induction ms arbitrary: j errs)
  case Nil
  then show ?case by simp
next
  case (Cons m ms)
  let ?p = "Child (Index (Child (Index (Child path ''rules'') i) ''matches'') j) ''headers''"
  show ?case
  proof (cases "HTTPRouteMatch_Headers m = []")
    case True
    then have "e \<in> set (matches_loop lib path i (Suc j) ms errs)"
      using Cons.prems by simp
    from Cons.IH[OF this] True show ?thesis
      by (simp add: match_violations_def header_violations_Nil)
  next
    case False
    then obtain h where h: "h \<in> set (validateHTTPHeaderMatches lib (HTTPRouteMatch_Headers m) ?p)"
      and e: "e \<in> set (matches_loop lib path i (Suc j) ms (errs @ h))"
      using Cons.prems by (auto simp: Let_def)
    from Cons.IH[OF e] validateHTTPHeaderMatches_mset[OF h] show ?thesis
      by (simp add: match_violations_def)
  qed
qed

lemma concat_map_nonempty:
  "xs \<noteq> [] \<Longrightarrow> (\<And>x. f x \<noteq> []) \<Longrightarrow> concat (map f xs) \<noteq> []"
  by (cases xs) auto

lemma matches_loop_nonempty: "matches_loop lib path i j ms errs \<noteq> []"
proof (induction ms arbitrary: j errs)
  case Nil
  then show ?case by simp
next
  case (Cons m ms)
  show ?case
    using Cons.IH by (simp add: Let_def concat_map_nonempty validateHTTPHeaderMatches_nonempty)
qed

lemma matches_loop_prefix:
  "set (matches_loop lib path i j ms errs) = (@) errs ` set (matches_loop lib path i j ms [])"
proof (induction ms arbitrary: j errs)
  case Nil
  then show ?case by simp
next
  case (Cons m ms)
  have step: "set (matches_loop lib path i (Suc j) ms (errs @ h))
              = (@) errs ` set (matches_loop lib path i (Suc j) ms h)" for h
    using Cons.IH[of "Suc j" "errs @ h"] Cons.IH[of "Suc j" h] by (auto simp: image_image)
  show ?case
  proof (cases "HTTPRouteMatch_Headers m = []")
    case True
    then show ?thesis using Cons.IH[of "Suc j" errs] by simp
  next
    case False
    then show ?thesis by (simp add: Let_def step image_UN)
  qed
qed

lemma rules_loop_mset:
  "e \<in> set (rules_loop lib path i rules errs) \<Longrightarrow>
   mset e = mset errs + sum_list (map (rule_violations lib path) (enumerate i rules))"
proof (induction rules arbitrary: i errs e)
  case Nil
  then show ?case by simp
next
  case (Cons rule rules)
  let ?errs2 = "backendRefs_loop lib path i (HTTPRouteRule_Matches rule) 0 (HTTPRouteRule_BackendRefs rule)
          (errs @ validateHTTPRouteFilters lib (HTTPRouteRule_Filters rule) (HTTPRouteRule_Matches rule)
                    (Index (Child path ''rules'') i))"
  from Cons.prems obtain a where
    a: "a \<in> set (matches_loop lib path i 0 (HTTPRouteRule_Matches rule) ?errs2)"
    and e: "e \<in> set (rules_loop lib path (Suc i) rules a)"
    by (auto simp: Let_def)
  from Cons.IH[OF e] matches_loop_mset[OF a] show ?case
    by (simp add: rule_violations_def backendRefs_loop_char)
qed

lemma rules_loop_nonempty: "rules_loop lib path i rules errs \<noteq> []"
proof (induction rules arbitrary: i errs)
  case Nil
  then show ?case by simp
next
  case (Cons rule rules)
  show ?case
    using Cons.IH by (simp add: Let_def concat_map_nonempty matches_loop_nonempty)
qed

lemma rules_loop_prefix:
  "set (rules_loop lib path i rules errs) = (@) errs ` set (rules_loop lib path i rules [])"
proof (induction rules arbitrary: i errs)
  case Nil
  then show ?case by simp
next
  case (Cons rule rules)
  let ?f = "validateHTTPRouteFilters lib (HTTPRouteRule_Filters rule) (HTTPRouteRule_Matches rule)
                    (Index (Child path ''rules'') i)"
  let ?b = "concat (map (backendRef_errors lib path i (HTTPRouteRule_Matches rule))
                          (enumerate 0 (HTTPRouteRule_BackendRefs rule)))"
  let ?M = "set (matches_loop lib path i 0 (HTTPRouteRule_Matches rule) [])"
  have m: "set (matches_loop lib path i 0 (HTTPRouteRule_Matches rule) (errs @ ?f @ ?b))
            = (@) errs ` set (matches_loop lib path i 0 (HTTPRouteRule_Matches rule) (?f @ ?b))"
    using matches_loop_prefix[of lib path i 0 "HTTPRouteRule_Matches rule" "errs @ ?f @ ?b"]
          matches_loop_prefix[of lib path i 0 "HTTPRouteRule_Matches rule" "?f @ ?b"]
    by (auto simp: image_image)
  have r: "set (rules_loop lib path (Suc i) rules (errs @ a))
            = (@) errs ` set (rules_loop lib path (Suc i) rules a)" for a
    using Cons.IH[of "Suc i" "errs @ a"] Cons.IH[of "Suc i" a] by (auto simp: image_image)
  show ?case
    by (simp add: Let_def backendRefs_loop_char m r image_UN)
qed

lemma concat_map_bind:
  "concat (map g (concat (map f xs))) = concat (map (\<lambda>a. concat (map g (f a))) xs)"
  by (induction xs) simp_all

lemma rules_loop_append:
  "rules_loop lib path i (xs @ ys) errs
     = concat (map (rules_loop lib path (i + length xs) ys) (rules_loop lib path i xs errs))"
proof (induction xs arbitrary: i errs)
  case Nil
  then show ?case by simp
next
  case (Cons x xs)
  have ih: "rules_loop lib path (Suc i) (xs @ ys)
            = (\<lambda>a. concat (map (rules_loop lib path (Suc i + length xs) ys)
                                (rules_loop lib path (Suc i) xs a)))"
    by (rule ext) (rule Cons.IH)
  show ?case
    by (simp add: Let_def ih concat_map_bind)
qed

lemma ValidateHTTPRouteSpec_mset:
  "e \<in> set (ValidateHTTPRouteSpec lib vpr spec path) \<Longrightarrow> mset e = all_violations lib vpr spec path"
  by (auto simp: ValidateHTTPRouteSpec_def all_violations_def dest!: rules_loop_mset)

lemma ValidateHTTPRouteSpec_nonempty: "ValidateHTTPRouteSpec lib vpr spec path \<noteq> []"
  by (simp add: ValidateHTTPRouteSpec_def rules_loop_nonempty)

lemma short_mset_eq:
  "mset a = mset b \<Longrightarrow> length a \<le> 1 \<Longrightarrow> a = b"
  by (cases a; cases b) auto

lemma validateHTTPHeaderMatches_single:
  assumes "length (duplicated_keys lib ms) \<le> 1"
    and a: "a \<in> set (validateHTTPHeaderMatches lib ms p)"
    and b: "b \<in> set (validateHTTPHeaderMatches lib ms p)"
  shows "a = b"
proof -
  have "mset a = mset b"
    using validateHTTPHeaderMatches_mset[OF a] validateHTTPHeaderMatches_mset[OF b] by simp
  moreover have "length a \<le> 1"
    using validateHTTPHeaderMatches_mset[OF a, THEN arg_cong, of size] assms(1)
    by (simp add: header_violations_def)
  ultimately show ?thesis by (rule short_mset_eq)
qed

lemma matches_loop_single:
  "list_all (\<lambda>m. length (duplicated_keys lib (HTTPRouteMatch_Headers m)) \<le> 1) ms \<Longrightarrow>
   a \<in> set (matches_loop lib path i j ms errs) \<Longrightarrow>
   b \<in> set (matches_loop lib path i j ms errs) \<Longrightarrow> a = b"
proof (induction ms arbitrary: j errs)
  case Nil
  then show ?case by simp
next
  case (Cons m ms)
  let ?p = "Child (Index (Child (Index (Child path ''rules'') i) ''matches'') j) ''headers''"
  show ?case
  proof (cases "HTTPRouteMatch_Headers m = []")
    case True
    with Cons show ?thesis by simp
  next
    case False
    from Cons.prems(2) False obtain h where
      h: "h \<in> set (validateHTTPHeaderMatches lib (HTTPRouteMatch_Headers m) ?p)"
      and a: "a \<in> set (matches_loop lib path i (Suc j) ms (errs @ h))"
      by (auto simp: Let_def)
    from Cons.prems(3) False obtain h' where
      h': "h' \<in> set (validateHTTPHeaderMatches lib (HTTPRouteMatch_Headers m) ?p)"
      and b: "b \<in> set (matches_loop lib path i (Suc j) ms (errs @ h'))"
      by (auto simp: Let_def)
    have "h = h'"
      using validateHTTPHeaderMatches_single[OF _ h h'] Cons.prems(1) by simp
    with a b Cons.IH[of "Suc j" "errs @ h"] Cons.prems(1) show ?thesis by simp
  qed
qed

lemma rules_loop_single:
  "list_all (\<lambda>rule. list_all (\<lambda>m. length (duplicated_keys lib (HTTPRouteMatch_Headers m)) \<le> 1)
                       (HTTPRouteRule_Matches rule)) rules \<Longrightarrow>
   a \<in> set (rules_loop lib path i rules errs) \<Longrightarrow>
   b \<in> set (rules_loop lib path i rules errs) \<Longrightarrow> a = b"
proof (induction rules arbitrary: i errs)
  case Nil
  then show ?case by simp
next
  case (Cons rule rules)
  let ?errs2 = "backendRefs_loop lib path i (HTTPRouteRule_Matches rule) 0 (HTTPRouteRule_BackendRefs rule)
          (errs @ validateHTTPRouteFilters lib (HTTPRouteRule_Filters rule) (HTTPRouteRule_Matches rule)
                    (Index (Child path ''rules'') i))"
  from Cons.prems(2) obtain x where
    x: "x \<in> set (matches_loop lib path i 0 (HTTPRouteRule_Matches rule) ?errs2)"
    and a: "a \<in> set (rules_loop lib path (Suc i) rules x)"
    by (auto simp: Let_def)
  from Cons.prems(3) obtain y where
    y: "y \<in> set (matches_loop lib path i 0 (HTTPRouteRule_Matches rule) ?errs2)"
    and b: "b \<in> set (rules_loop lib path (Suc i) rules y)"
    by (auto simp: Let_def)
  have "x = y"
    using matches_loop_single[OF _ x y] Cons.prems(1) by simp
  with a b Cons.IH[of "Suc i" x] Cons.prems(1) show ?case by simp
qed

text \<open>
  C1 on the code: the route of the package's test \<^verbatim>\<open>query param matched more than once\<close>,
  whose only match block repeats the query parameter \<^verbatim>\<open>query-param-1\<close>, is validated with
  no error at all.
\<close>

theorem ValidateHTTPRoute_duplicate_queryParams_unreported:
  "ValidateHTTPRoute ascii_lib no_parent_errors (mk_route [query_rule]) = [[]]"
  by code_simp

text \<open>
  C6 as stated fails: for a route whose match block repeats two header names, the validation
  has two possible results, which hold the two (different) errors in opposite orders; which
  one a run returns depends on the order in which the runtime ranges over the map of counts.
\<close>

theorem ValidateHTTPRoute_two_error_orders:
  "ValidateHTTPRoute ascii_lib no_parent_errors (mk_route [header_rule two_dup_headers]) =
     [[Invalid two_dup_path (StringValue ''X-A'')
         ''cannot match the same header multiple times in the same rule'',
       Invalid two_dup_path (StringValue ''X-B'')
         ''cannot match the same header multiple times in the same rule''],
      [Invalid two_dup_path (StringValue ''X-B'')
         ''cannot match the same header multiple times in the same rule'',
       Invalid two_dup_path (StringValue ''X-A'')
         ''cannot match the same header multiple times in the same rule'']]
   \<and> Invalid two_dup_path (StringValue ''X-A'')
         ''cannot match the same header multiple times in the same rule''
     \<noteq> Invalid two_dup_path (StringValue ''X-B'')
         ''cannot match the same header multiple times in the same rule''"
  by code_simp

text \<open>
  C6, amended. For every route spec, any two results of the validation on the same input hold
  the same errors with the same multiplicities, so they differ at most in the order of their
  errors; and when no match block of the spec has more than one duplicated header name, any
  two results are the same list.
\<close>

theorem ValidateHTTPRouteSpec_results_agree_up_to_order:
  "(\<forall>e \<in> set (ValidateHTTPRouteSpec lib vpr spec path).
      \<forall>e' \<in> set (ValidateHTTPRouteSpec lib vpr spec path). mset e = mset e')
   \<and> (single_duplicate lib spec \<longrightarrow>
        (\<forall>e \<in> set (ValidateHTTPRouteSpec lib vpr spec path).
           \<forall>e' \<in> set (ValidateHTTPRouteSpec lib vpr spec path). e = e'))"
proof (intro conjI ballI impI)
  fix e e'
  assume "e \<in> set (ValidateHTTPRouteSpec lib vpr spec path)"
    and "e' \<in> set (ValidateHTTPRouteSpec lib vpr spec path)"
  then show "mset e = mset e'" by (simp add: ValidateHTTPRouteSpec_mset)
next
  fix e e'
  assume s: "single_duplicate lib spec"
    and "e \<in> set (ValidateHTTPRouteSpec lib vpr spec path)"
    and "e' \<in> set (ValidateHTTPRouteSpec lib vpr spec path)"
  then obtain a b where
    a: "a \<in> set (rules_loop lib path 0 (HTTPRouteSpec_Rules spec) [])"
       "e = a @ vpr (HTTPRouteSpec_ParentRefs spec) (Child path ''spec'')"
    and b: "b \<in> set (rules_loop lib path 0 (HTTPRouteSpec_Rules spec) [])"
       "e' = b @ vpr (HTTPRouteSpec_ParentRefs spec) (Child path ''spec'')"
    by (auto simp: ValidateHTTPRouteSpec_def)
  have "a = b"
    using rules_loop_single[OF _ a(1) b(1)] s by (simp add: single_duplicate_def)
  with a b show "e = e'" by simp
qed

theorem ValidateHTTPRouteSpec_results_agree_up_to_order_witness:
  "[duplicate_header_error ascii_lib (Child (Index (Child (Index (Child NilPath ''rules'') 0) ''matches'') 0) ''headers'') ''x-a'',
    duplicate_header_error ascii_lib (Child (Index (Child (Index (Child NilPath ''rules'') 0) ''matches'') 0) ''headers'') ''x-b'']
     \<in> set (ValidateHTTPRouteSpec ascii_lib no_parent_errors
               (HTTPRoute_Spec (mk_route [header_rule two_dup_headers])) NilPath)
   \<and> [duplicate_header_error ascii_lib (Child (Index (Child (Index (Child NilPath ''rules'') 0) ''matches'') 0) ''headers'') ''x-b'',
    duplicate_header_error ascii_lib (Child (Index (Child (Index (Child NilPath ''rules'') 0) ''matches'') 0) ''headers'') ''x-a'']
     \<in> set (ValidateHTTPRouteSpec ascii_lib no_parent_errors
               (HTTPRoute_Spec (mk_route [header_rule two_dup_headers])) NilPath)
   \<and> mset [duplicate_header_error ascii_lib (Child (Index (Child (Index (Child NilPath ''rules'') 0) ''matches'') 0) ''headers'') ''x-a'',
    duplicate_header_error ascii_lib (Child (Index (Child (Index (Child NilPath ''rules'') 0) ''matches'') 0) ''headers'') ''x-b'']
     = mset [duplicate_header_error ascii_lib (Child (Index (Child (Index (Child NilPath ''rules'') 0) ''matches'') 0) ''headers'') ''x-b'',
    duplicate_header_error ascii_lib (Child (Index (Child (Index (Child NilPath ''rules'') 0) ''matches'') 0) ''headers'') ''x-a'']
   \<and> single_duplicate ascii_lib two_rule_spec
   \<and> set (ValidateHTTPRouteSpec ascii_lib one_parent_error two_rule_spec (NewPath ''spec''))
       = {two_rule_errors}"
proof -
  let ?h = "Child (Index (Child (Index (Child NilPath ''rules'') 0) ''matches'') 0) ''headers''"
  let ?S = "HTTPRoute_Spec (mk_route [header_rule two_dup_headers])"
  have a: "[duplicate_header_error ascii_lib ?h ''x-a'', duplicate_header_error ascii_lib ?h ''x-b'']
             \<in> set (ValidateHTTPRouteSpec ascii_lib no_parent_errors ?S NilPath)"
    by code_simp
  have b: "[duplicate_header_error ascii_lib ?h ''x-b'', duplicate_header_error ascii_lib ?h ''x-a'']
             \<in> set (ValidateHTTPRouteSpec ascii_lib no_parent_errors ?S NilPath)"
    by code_simp
  have sd: "single_duplicate ascii_lib two_rule_spec"
    by code_simp
  have m: "two_rule_errors
             \<in> set (ValidateHTTPRouteSpec ascii_lib one_parent_error two_rule_spec (NewPath ''spec''))"
    by code_simp
  note t1 = ValidateHTTPRouteSpec_results_agree_up_to_order
              [of ascii_lib no_parent_errors ?S NilPath, THEN conjunct1, THEN bspec, OF a, THEN bspec, OF b]
  have t2: "e \<in> set (ValidateHTTPRouteSpec ascii_lib one_parent_error two_rule_spec (NewPath ''spec''))
            \<Longrightarrow> e = two_rule_errors" for e
    using ValidateHTTPRouteSpec_results_agree_up_to_order
              [of ascii_lib one_parent_error two_rule_spec "NewPath ''spec''",
               THEN conjunct2, THEN mp, OF sd, THEN bspec, THEN bspec, OF _ m] .
  have s: "set (ValidateHTTPRouteSpec ascii_lib one_parent_error two_rule_spec (NewPath ''spec''))
       = {two_rule_errors}"
    using m t2 by blast
  from a b t1 sd s show ?thesis by (intro conjI)
qed

text \<open>
  C9. For every route spec, path and collaborator, the validation has a result, and every
  result holds, with their multiplicities, exactly the errors of every check: for each rule
  the errors of its own filter list, of the filter list of each of its backend references and
  of the header matches of each of its match blocks, and the errors of the collaborator. No
  check is skipped because another one has reported an error. The model has no failing branch:
  a header-modifier payload is read only when it is present, and the loops index their own
  slices.
\<close>

theorem ValidateHTTPRouteSpec_total_and_complete:
  "ValidateHTTPRouteSpec lib vpr spec path \<noteq> []
   \<and> (\<forall>errs \<in> set (ValidateHTTPRouteSpec lib vpr spec path).
        mset errs = all_violations lib vpr spec path)"
  using ValidateHTTPRouteSpec_nonempty ValidateHTTPRouteSpec_mset by blast

theorem ValidateHTTPRouteSpec_total_and_complete_witness:
  "[Invalid (Child (Index (Child (Index (Child (NewPath ''spec'') ''rules'') 0) ''matches'') 0) ''headers'')
      (StringValue ''Header-Name-2'') ''cannot match the same header multiple times in the same rule'',
    exclusive_error (Index (Child (NewPath ''spec'') ''rules'') 1),
    Invalid (Child (Child (NewPath ''spec'') ''spec'') ''parentRefs'') (OpaqueValue ''parent'')
      ''reported by the collaborator'']
     \<in> set (ValidateHTTPRouteSpec ascii_lib one_parent_error
               (HTTPRoute_Spec (mk_route [header_rule dup_headers, redirect_rewrite_rule]))
               (NewPath ''spec''))
   \<and> mset [Invalid (Child (Index (Child (Index (Child (NewPath ''spec'') ''rules'') 0) ''matches'') 0) ''headers'')
      (StringValue ''Header-Name-2'') ''cannot match the same header multiple times in the same rule'',
    exclusive_error (Index (Child (NewPath ''spec'') ''rules'') 1),
    Invalid (Child (Child (NewPath ''spec'') ''spec'') ''parentRefs'') (OpaqueValue ''parent'')
      ''reported by the collaborator'']
     = all_violations ascii_lib one_parent_error
         (HTTPRoute_Spec (mk_route [header_rule dup_headers, redirect_rewrite_rule]))
         (NewPath ''spec'')"
proof -
  have m: "[Invalid (Child (Index (Child (Index (Child (NewPath ''spec'') ''rules'') 0) ''matches'') 0) ''headers'')
      (StringValue ''Header-Name-2'') ''cannot match the same header multiple times in the same rule'',
    exclusive_error (Index (Child (NewPath ''spec'') ''rules'') 1),
    Invalid (Child (Child (NewPath ''spec'') ''spec'') ''parentRefs'') (OpaqueValue ''parent'')
      ''reported by the collaborator'']
     \<in> set (ValidateHTTPRouteSpec ascii_lib one_parent_error
               (HTTPRoute_Spec (mk_route [header_rule dup_headers, redirect_rewrite_rule]))
               (NewPath ''spec''))"
    by code_simp
  from m ValidateHTTPRouteSpec_total_and_complete
         [of ascii_lib one_parent_error
             "HTTPRoute_Spec (mk_route [header_rule dup_headers, redirect_rewrite_rule])"
             "NewPath ''spec''", THEN conjunct2, THEN bspec, OF m]
  show ?thesis by (rule conjI)
qed

text \<open>
  C8. For every route spec, path and collaborator \<open>vpr\<close>, the results of the validation are
  the results of the validation with a collaborator that reports nothing, each followed by
  the list that \<open>vpr\<close> returns for the parent references of the spec and the path
  \<open>path.spec\<close>: the collaborator's errors enter every result once, at the end, after the
  errors of all rules, as they are, and nothing else depends on the collaborator.
\<close>

theorem ValidateHTTPRouteSpec_parent_refs_last:
  "ValidateHTTPRouteSpec lib vpr spec path =
     map (\<lambda>errs. errs @ vpr (HTTPRouteSpec_ParentRefs spec) (Child path ''spec''))
       (ValidateHTTPRouteSpec lib (\<lambda>parentRefs p. []) spec path)"
  by (simp add: ValidateHTTPRouteSpec_def comp_def)

theorem ValidateHTTPRouteSpec_parent_refs_last_witness:
  "ValidateHTTPRouteSpec ascii_lib one_parent_error
     (HTTPRoute_Spec (mk_route [redirect_rewrite_rule])) (NewPath ''spec'')
   = [[exclusive_error (Index (Child (NewPath ''spec'') ''rules'') 0),
       Invalid (Child (Child (NewPath ''spec'') ''spec'') ''parentRefs'') (OpaqueValue ''parent'')
         ''reported by the collaborator'']]"
proof -
  have silent: "ValidateHTTPRouteSpec ascii_lib (\<lambda>parentRefs p. [])
     (HTTPRoute_Spec (mk_route [redirect_rewrite_rule])) (NewPath ''spec'')
     = [[exclusive_error (Index (Child (NewPath ''spec'') ''rules'') 0)]]"
    by code_simp
  have p: "one_parent_error (HTTPRouteSpec_ParentRefs (HTTPRoute_Spec (mk_route [redirect_rewrite_rule])))
             (Child (NewPath ''spec'') ''spec'')
           = [Invalid (Child (Child (NewPath ''spec'') ''spec'') ''parentRefs'') (OpaqueValue ''parent'')
               ''reported by the collaborator'']"
    by code_simp
  show ?thesis
    using ValidateHTTPRouteSpec_parent_refs_last
            [of ascii_lib one_parent_error "HTTPRoute_Spec (mk_route [redirect_rewrite_rule])"
                "NewPath ''spec''"]
    unfolding silent p by simp
qed

text \<open>
  C7. For every route spec and every rule appended to its rules: every result for the extended
  spec is a result for the rules of the original spec, followed by a result of validating the
  appended rule on its own at the next index, followed by the collaborator's errors; the
  errors of the original rules keep their paths. Any result for the extended spec holds the
  errors of any result for the original spec together with the violations of the appended rule.
\<close>

theorem ValidateHTTPRouteSpec_append_rule:
  "(\<forall>e' \<in> set (ValidateHTTPRouteSpec lib vpr
                  (spec\<lparr>HTTPRouteSpec_Rules := HTTPRouteSpec_Rules spec @ [rule]\<rparr>) path).
      \<exists>a b. a @ vpr (HTTPRouteSpec_ParentRefs spec) (Child path ''spec'')
               \<in> set (ValidateHTTPRouteSpec lib vpr spec path)
           \<and> b \<in> set (rule_outcomes lib path (length (HTTPRouteSpec_Rules spec)) rule)
           \<and> e' = a @ b @ vpr (HTTPRouteSpec_ParentRefs spec) (Child path ''spec''))
   \<and> (\<forall>e \<in> set (ValidateHTTPRouteSpec lib vpr spec path).
        \<forall>e' \<in> set (ValidateHTTPRouteSpec lib vpr
                  (spec\<lparr>HTTPRouteSpec_Rules := HTTPRouteSpec_Rules spec @ [rule]\<rparr>) path).
          mset e' = mset e + rule_violations lib path (length (HTTPRouteSpec_Rules spec), rule))"
proof (intro conjI ballI)
  let ?P = "vpr (HTTPRouteSpec_ParentRefs spec) (Child path ''spec'')"
  let ?n = "length (HTTPRouteSpec_Rules spec)"
  fix e'
  assume "e' \<in> set (ValidateHTTPRouteSpec lib vpr
                  (spec\<lparr>HTTPRouteSpec_Rules := HTTPRouteSpec_Rules spec @ [rule]\<rparr>) path)"
  then obtain x where x: "x \<in> set (rules_loop lib path 0 (HTTPRouteSpec_Rules spec @ [rule]) [])"
    and e': "e' = x @ ?P"
    by (auto simp: ValidateHTTPRouteSpec_def)
  from x obtain a where a: "a \<in> set (rules_loop lib path 0 (HTTPRouteSpec_Rules spec) [])"
    and xa: "x \<in> set (rules_loop lib path ?n [rule] a)"
    by (auto simp: rules_loop_append)
  from xa obtain b where b: "b \<in> set (rules_loop lib path ?n [rule] [])" and xb: "x = a @ b"
    using rules_loop_prefix[of lib path ?n "[rule]" a] by auto
  have "a @ ?P \<in> set (ValidateHTTPRouteSpec lib vpr spec path)"
    using a by (simp add: ValidateHTTPRouteSpec_def)
  then show "\<exists>a b. a @ ?P \<in> set (ValidateHTTPRouteSpec lib vpr spec path)
           \<and> b \<in> set (rule_outcomes lib path ?n rule) \<and> e' = a @ b @ ?P"
    using b e' xb unfolding rule_outcomes_def by (intro exI[of _ a] exI[of _ b]) simp
next
  fix e e'
  assume "e \<in> set (ValidateHTTPRouteSpec lib vpr spec path)"
    and "e' \<in> set (ValidateHTTPRouteSpec lib vpr
                  (spec\<lparr>HTTPRouteSpec_Rules := HTTPRouteSpec_Rules spec @ [rule]\<rparr>) path)"
  then show "mset e' = mset e + rule_violations lib path (length (HTTPRouteSpec_Rules spec), rule)"
    by (simp add: ValidateHTTPRouteSpec_mset all_violations_def enumerate_append_eq)
qed

theorem ValidateHTTPRouteSpec_append_rule_witness:
  "two_rule_errors
     \<in> set (ValidateHTTPRouteSpec ascii_lib one_parent_error
              (HTTPRoute_Spec (mk_route [header_rule dup_headers])
                 \<lparr>HTTPRouteSpec_Rules :=
                    HTTPRouteSpec_Rules (HTTPRoute_Spec (mk_route [header_rule dup_headers]))
                    @ [redirect_rewrite_rule]\<rparr>)
              (NewPath ''spec''))
   \<and> (\<exists>a b. a @ one_parent_error
                   (HTTPRouteSpec_ParentRefs (HTTPRoute_Spec (mk_route [header_rule dup_headers])))
                   (Child (NewPath ''spec'') ''spec'')
               \<in> set (ValidateHTTPRouteSpec ascii_lib one_parent_error
                        (HTTPRoute_Spec (mk_route [header_rule dup_headers])) (NewPath ''spec''))
           \<and> b \<in> set (rule_outcomes ascii_lib (NewPath ''spec'')
                         (length (HTTPRouteSpec_Rules (HTTPRoute_Spec (mk_route [header_rule dup_headers]))))
                         redirect_rewrite_rule)
           \<and> two_rule_errors
               = a @ b @ one_parent_error
                   (HTTPRouteSpec_ParentRefs (HTTPRoute_Spec (mk_route [header_rule dup_headers])))
                   (Child (NewPath ''spec'') ''spec''))
   \<and> one_rule_errors
       \<in> set (ValidateHTTPRouteSpec ascii_lib one_parent_error
                (HTTPRoute_Spec (mk_route [header_rule dup_headers])) (NewPath ''spec''))
   \<and> mset two_rule_errors
       = mset one_rule_errors
         + rule_violations ascii_lib (NewPath ''spec'')
             (length (HTTPRouteSpec_Rules (HTTPRoute_Spec (mk_route [header_rule dup_headers]))),
              redirect_rewrite_rule)"
proof -
  let ?S = "HTTPRoute_Spec (mk_route [header_rule dup_headers])"
  have m': "two_rule_errors
     \<in> set (ValidateHTTPRouteSpec ascii_lib one_parent_error
              (?S\<lparr>HTTPRouteSpec_Rules := HTTPRouteSpec_Rules ?S @ [redirect_rewrite_rule]\<rparr>)
              (NewPath ''spec''))"
    by code_simp
  have m: "one_rule_errors
       \<in> set (ValidateHTTPRouteSpec ascii_lib one_parent_error ?S (NewPath ''spec''))"
    by code_simp
  note t = ValidateHTTPRouteSpec_append_rule
             [of ascii_lib one_parent_error ?S redirect_rewrite_rule "NewPath ''spec''"]
  from m' t[THEN conjunct1, THEN bspec, OF m'] m t[THEN conjunct2, THEN bspec, OF m, THEN bspec, OF m']
  show ?thesis by (intro conjI)
qed

section \<open>The mutually exclusive kinds in a whole route\<close>

lemma validateHTTPRouteFilters_exclusive_at:
  "[e \<leftarrow> validateHTTPRouteFilters lib fs ms p. Detail e = exclusive_detail \<and> Field e = q]
     = (if has_kind HTTPRouteFilterRequestRedirect fs \<and> has_kind HTTPRouteFilterURLRewrite fs
           \<and> Child p ''filters'' = q
        then [exclusive_error p] else [])"
proof -
  have "[e \<leftarrow> delegated_errors lib p 0 fs. Detail e = exclusive_detail \<and> Field e = q] = []"
    by (auto simp: filter_empty_conv exclusive_detail_def dest!: delegated_errors_detail)
  then show ?thesis
    by (simp add: validateHTTPRouteFilters_char) (auto simp: exclusive_error_def Invalid_def)
qed

lemma filter_mset_sum_list_empty:
  "\<forall>m \<in> set ms. \<forall>x \<in># m. \<not> P x \<Longrightarrow> filter_mset P (sum_list ms) = {#}"
  by (induction ms) auto

lemma header_violations_detail:
  "x \<in># header_violations lib ms p \<Longrightarrow>
   Detail x = ''cannot match the same header multiple times in the same rule''"
  by (auto simp: header_violations_def duplicate_header_error_def Invalid_def)

lemma rule_violations_exclusive:
  "filter_mset (\<lambda>e. Detail e = exclusive_detail \<and> Field e = Child (Index (Child path ''rules'') i) ''filters'')
     (rule_violations lib path (i', rule))
   = (if i' = i \<and> has_kind HTTPRouteFilterRequestRedirect (HTTPRouteRule_Filters rule)
         \<and> has_kind HTTPRouteFilterURLRewrite (HTTPRouteRule_Filters rule)
      then {#exclusive_error (Index (Child path ''rules'') i)#} else {#})"
proof -
  let ?P = "\<lambda>e. Detail e = exclusive_detail \<and> Field e = Child (Index (Child path ''rules'') i) ''filters''"
  have b: "filter ?P (concat (map (backendRef_errors lib path i' (HTTPRouteRule_Matches rule))
                          (enumerate 0 (HTTPRouteRule_BackendRefs rule)))) = []"
  proof -
    have "filter ?P (backendRef_errors lib path i' ms jb) = []" for ms jb
      by (cases jb) (simp add: backendRef_errors_def validateHTTPRouteFilters_exclusive_at)
    then show ?thesis
      by (simp add: filter_concat comp_def)
  qed
  have m: "filter_mset ?P (sum_list (map (match_violations lib path i')
                          (enumerate 0 (HTTPRouteRule_Matches rule)))) = {#}"
    by (rule filter_mset_sum_list_empty)
       (auto simp: match_violations_def exclusive_detail_def dest!: header_violations_detail)
  show ?thesis
    unfolding rule_violations_def
    by (simp add: b m validateHTTPRouteFilters_exclusive_at flip: mset_filter)
qed

lemma rules_violations_exclusive:
  "filter_mset (\<lambda>e. Detail e = exclusive_detail \<and> Field e = Child (Index (Child path ''rules'') i) ''filters'')
     (sum_list (map (rule_violations lib path) (enumerate k rules)))
   = (if k \<le> i \<and> i < k + length rules
         \<and> has_kind HTTPRouteFilterRequestRedirect (HTTPRouteRule_Filters (rules ! (i - k)))
         \<and> has_kind HTTPRouteFilterURLRewrite (HTTPRouteRule_Filters (rules ! (i - k)))
      then {#exclusive_error (Index (Child path ''rules'') i)#} else {#})"
proof (induction rules arbitrary: k)
  case Nil
  then show ?case by simp
next
  case (Cons r rs)
  show ?case
  proof (cases "i = k")
    case True
    with Cons.IH[of "Suc k"] show ?thesis
      by (simp add: rule_violations_exclusive)
  next
    case False
    with Cons.IH[of "Suc k"] show ?thesis
      by (auto simp: rule_violations_exclusive nth_Cons' Suc_le_eq)
  qed
qed

lemma mset_if_single:
  "mset xs = (if c then {#x#} else {#}) \<Longrightarrow> xs = (if c then [x] else [])"
  by (cases c; cases xs) auto

text \<open>
  C3. For every filter list and path: among the errors of \<open>validateHTTPRouteFilters\<close>, the
  ones that say the redirect and rewrite kinds are mutually exclusive are exactly one error, at
  \<open>path.filters\<close>, when the list holds a filter whose type is RequestRedirect and a filter
  whose type is URLRewrite, however many of each, and none when either kind is absent. And for
  every route spec, every result of the validation and every rule \<open>i\<close>: provided the
  collaborator reports no error with that message, the result holds exactly one such error at
  \<open>rules[i].filters\<close> when the rule's own filters hold both kinds, and none otherwise.
\<close>

theorem validateHTTPRouteFilters_exclusive_kinds_once:
  "[e \<leftarrow> validateHTTPRouteFilters lib filters matches path. Detail e = exclusive_detail]
     = (if has_kind HTTPRouteFilterRequestRedirect filters \<and> has_kind HTTPRouteFilterURLRewrite filters
        then [exclusive_error path] else [])
   \<and> ((\<forall>e \<in> set (vpr (HTTPRouteSpec_ParentRefs spec) (Child p ''spec'')). Detail e \<noteq> exclusive_detail) \<longrightarrow>
       (\<forall>errs \<in> set (ValidateHTTPRouteSpec lib vpr spec p).
          \<forall>i < length (HTTPRouteSpec_Rules spec).
            [e \<leftarrow> errs. Detail e = exclusive_detail
                         \<and> Field e = Child (Index (Child p ''rules'') i) ''filters'']
            = (if has_kind HTTPRouteFilterRequestRedirect
                    (HTTPRouteRule_Filters (HTTPRouteSpec_Rules spec ! i))
                  \<and> has_kind HTTPRouteFilterURLRewrite
                    (HTTPRouteRule_Filters (HTTPRouteSpec_Rules spec ! i))
               then [exclusive_error (Index (Child p ''rules'') i)] else [])))"
proof (intro conjI impI ballI allI)
  have "[e \<leftarrow> delegated_errors lib path 0 filters. Detail e = exclusive_detail] = []"
    by (auto simp: filter_empty_conv exclusive_detail_def dest!: delegated_errors_detail)
  then show "[e \<leftarrow> validateHTTPRouteFilters lib filters matches path. Detail e = exclusive_detail]
     = (if has_kind HTTPRouteFilterRequestRedirect filters \<and> has_kind HTTPRouteFilterURLRewrite filters
        then [exclusive_error path] else [])"
    by (simp add: validateHTTPRouteFilters_char) (simp add: exclusive_error_def Invalid_def)
next
  fix errs i
  let ?P = "\<lambda>e. Detail e = exclusive_detail \<and> Field e = Child (Index (Child p ''rules'') i) ''filters''"
  assume v: "\<forall>e \<in> set (vpr (HTTPRouteSpec_ParentRefs spec) (Child p ''spec'')). Detail e \<noteq> exclusive_detail"
    and e: "errs \<in> set (ValidateHTTPRouteSpec lib vpr spec p)"
    and i: "i < length (HTTPRouteSpec_Rules spec)"
  have pv: "filter_mset ?P (mset (vpr (HTTPRouteSpec_ParentRefs spec) (Child p ''spec''))) = {#}"
    using v by auto
  have "mset (filter ?P errs) = filter_mset ?P (all_violations lib vpr spec p)"
    using ValidateHTTPRouteSpec_mset[OF e, symmetric] by simp
  also have "\<dots> = (if has_kind HTTPRouteFilterRequestRedirect
                    (HTTPRouteRule_Filters (HTTPRouteSpec_Rules spec ! i))
                  \<and> has_kind HTTPRouteFilterURLRewrite
                    (HTTPRouteRule_Filters (HTTPRouteSpec_Rules spec ! i))
               then {#exclusive_error (Index (Child p ''rules'') i)#} else {#})"
    unfolding all_violations_def
    using i by (simp only: filter_union_mset rules_violations_exclusive pv) simp
  finally have "mset (filter ?P errs) = (if has_kind HTTPRouteFilterRequestRedirect
                    (HTTPRouteRule_Filters (HTTPRouteSpec_Rules spec ! i))
                  \<and> has_kind HTTPRouteFilterURLRewrite
                    (HTTPRouteRule_Filters (HTTPRouteSpec_Rules spec ! i))
               then {#exclusive_error (Index (Child p ''rules'') i)#} else {#})" .
  then show "filter ?P errs
            = (if has_kind HTTPRouteFilterRequestRedirect
                    (HTTPRouteRule_Filters (HTTPRouteSpec_Rules spec ! i))
                  \<and> has_kind HTTPRouteFilterURLRewrite
                    (HTTPRouteRule_Filters (HTTPRouteSpec_Rules spec ! i))
               then [exclusive_error (Index (Child p ''rules'') i)] else [])"
    by (rule mset_if_single)
qed

theorem validateHTTPRouteFilters_exclusive_kinds_once_witness:
  "[e \<leftarrow> validateHTTPRouteFilters ascii_lib
            [mk_filter HTTPRouteFilterRequestRedirect, mk_filter HTTPRouteFilterURLRewrite,
             mk_filter HTTPRouteFilterRequestRedirect, mk_filter HTTPRouteFilterURLRewrite]
            [] (NewPath ''rule'').
      Detail e = exclusive_detail]
     = [exclusive_error (NewPath ''rule'')]
   \<and> two_rule_errors \<in> set (ValidateHTTPRouteSpec ascii_lib one_parent_error two_rule_spec (NewPath ''spec''))
   \<and> [e \<leftarrow> two_rule_errors. Detail e = exclusive_detail
          \<and> Field e = Child (Index (Child (NewPath ''spec'') ''rules'') 1) ''filters'']
     = [exclusive_error (Index (Child (NewPath ''spec'') ''rules'') 1)]"
proof -
  let ?fs = "[mk_filter HTTPRouteFilterRequestRedirect, mk_filter HTTPRouteFilterURLRewrite,
              mk_filter HTTPRouteFilterRequestRedirect, mk_filter HTTPRouteFilterURLRewrite]"
  note t = validateHTTPRouteFilters_exclusive_kinds_once[where lib = ascii_lib and filters = ?fs and matches = "[]"
                     and path = "NewPath ''rule''" and vpr = one_parent_error
                     and spec = two_rule_spec and p = "NewPath ''spec''"]
  have k: "has_kind HTTPRouteFilterRequestRedirect ?fs \<and> has_kind HTTPRouteFilterURLRewrite ?fs"
    by code_simp
  have h: "\<forall>e \<in> set (one_parent_error (HTTPRouteSpec_ParentRefs two_rule_spec)
                        (Child (NewPath ''spec'') ''spec'')). Detail e \<noteq> exclusive_detail"
    by code_simp
  have m: "two_rule_errors
             \<in> set (ValidateHTTPRouteSpec ascii_lib one_parent_error two_rule_spec (NewPath ''spec''))"
    by code_simp
  have i: "1 < length (HTTPRouteSpec_Rules two_rule_spec)"
    by code_simp
  have k1: "has_kind HTTPRouteFilterRequestRedirect
              (HTTPRouteRule_Filters (HTTPRouteSpec_Rules two_rule_spec ! 1))
            \<and> has_kind HTTPRouteFilterURLRewrite
              (HTTPRouteRule_Filters (HTTPRouteSpec_Rules two_rule_spec ! 1))"
    by code_simp
  from t[THEN conjunct1] k
  have a: "[e \<leftarrow> validateHTTPRouteFilters ascii_lib ?fs [] (NewPath ''rule'').
              Detail e = exclusive_detail] = [exclusive_error (NewPath ''rule'')]"
    by (simp only: simp_thms if_True)
  from t[THEN conjunct2, THEN mp, OF h, THEN bspec, OF m, THEN spec, of 1, THEN mp, OF i] k1
  have b: "[e \<leftarrow> two_rule_errors. Detail e = exclusive_detail
          \<and> Field e = Child (Index (Child (NewPath ''spec'') ''rules'') 1) ''filters'']
     = [exclusive_error (Index (Child (NewPath ''spec'') ''rules'') 1)]"
    by (simp only: simp_thms if_True)
  from a m b show ?thesis by (intro conjI)
qed

end
